theory Spec2Isabelle
  imports Main
begin

section \<open>Data model of pkg/rpc/server/server.go\<close>

text \<open>\<open>spi.InterfaceSpec\<close>: the (name, version) pair used as key of the handshake map.\<close>

record InterfaceSpec =
  Name :: string
  Version :: string

text \<open>
  \<open>types.Path\<close> (pkg/types) is kept abstract: a path is represented by the string it was
  parsed from, so \<open>PathFromString\<close> is the constructor and \<open>String()\<close> reads it back.
\<close>

datatype Path = PathFromString string

fun Path_String :: "Path \<Rightarrow> string" where
  "Path_String (PathFromString s) = s"

record Event =
  Topic :: Path
  Data :: string

datatype error =
    RegistrationError string
  | PluginInfoError
  | BindError string string
  | MarkerWriteError string
  | ErrInvalidTopic string
  | ValidateError string
  | DumpError string

text \<open>
  A backing object (\<open>VersionedInterface\<close>). Besides the two interface methods the record
  carries what the type assertions and the dispatch layer see of the object:
  \<open>Methods\<close> are the method names the dispatch layer exposes for it,
  \<open>is_Publisher\<close> says whether \<open>t.(event.Publisher)\<close> succeeds, and
  \<open>as_Validator\<close> is \<open>Some Validate\<close> when \<open>t.(event.Validator)\<close> succeeds
  (\<open>Validate\<close> returns \<open>None\<close> for a nil error).
\<close>

record VersionedInterface =
  ImplementedInterface :: InterfaceSpec
  Types :: "string list"
  Methods :: "string list"
  is_Publisher :: bool
  as_Validator :: "(Path \<Rightarrow> error option) option"

type_synonym interfaces = "InterfaceSpec \<rightharpoonup> string list"

datatype service = PluginService VersionedInterface | HandshakeService interfaces

subsection \<open>The process state the server acts on\<close>

datatype fnode = RegularFile string | SocketFile

record Listener =
  network :: string
  laddr :: string

text \<open>
  Background tasks: the forwarding goroutine of one event channel, and the goroutine that
  runs \<open>gracefulServer.Serve(listener)\<close>; the latter captures \<open>listen\<close> and
  \<open>discoverPath\<close>.
\<close>

datatype task = Forwarder nat | AcceptLoop Listener "string list" string

record Broker =
  published :: "(string \<times> Event \<times> nat) list"
  stopped :: bool

text \<open>
  \<open>files\<close> is the filesystem, \<open>listeners\<close> the open (bound, not yet closed) listeners,
  \<open>tasks\<close> the goroutines that have been started and have not returned,
  \<open>chan_count\<close> the number of event channels made so far (channel ids are
  \<open>0, 1, ...\<close>), \<open>publish_on_calls\<close> the calls \<open>PublishOn(eventChan)\<close> made so far as
  (position of the target, channel), \<open>events\<close> the broker, \<open>rpc\<close> the services of the
  RPC server installed behind the router, \<open>stop_chan_closed\<close> whether the graceful
  server's stop channel has been closed. The last four fields are the answers of the
  operating system and of \<open>NewPluginInfo\<close>, which the code cannot influence.
\<close>

text \<open>
  How \<open>ioutil.WriteFile\<close> can fail: the file cannot be opened, or it has been opened
  (created or truncated) and the write or the close fails after some bytes.
\<close>

datatype write_failure = OpenFails | WriteFailsAfter nat

record world =
  files :: "string \<rightharpoonup> fnode"
  listeners :: "Listener list"
  tasks :: "task list"
  chan_count :: nat
  publish_on_calls :: "(nat \<times> nat) list"
  events :: Broker
  rpc :: "service list"
  stop_chan_closed :: bool
  listen_fails :: "string \<Rightarrow> string \<Rightarrow> bool"
  write_fails :: "string \<Rightarrow> write_failure option"
  remove_fails :: "string \<Rightarrow> bool"
  plugin_info_fails :: "VersionedInterface \<Rightarrow> bool"

text \<open>The \<open>stoppableServer\<close> handle: the graceful server with its address and timeout.\<close>

record stoppableServer =
  server_Addr :: string
  server_Timeout :: nat
  server_listener :: Listener
  server_listen :: "string list"
  server_discoverPath :: string

section \<open>Collaborators that are not part of server.go\<close>

text \<open>
  Modelled from the spec: the methods of the handshake service
  (\<open>rpc_server.Handshake\<close>, pkg/rpc, not under src/), which "registers itself as an
  additional exposed service".
\<close>

definition handshake_methods :: "string list" where
  "handshake_methods = [''Handshake.Implements'']"

fun service_methods :: "service \<Rightarrow> string list" where
  "service_methods (PluginService t) = Methods t"
| "service_methods (HandshakeService m) = handshake_methods"

definition exposed :: "service list \<Rightarrow> string list" where
  "exposed srv = concat (map service_methods srv)"

text \<open>
  Modelled from the spec: \<open>rpc.Server.RegisterService\<close> of the dispatch layer
  (gorilla/rpc, not under src/). Registration "fails with a RegistrationError if any
  object's method set cannot be exposed by the dispatch layer (e.g., name collision with
  another object)": a service is refused when one of its method names is already exposed
  by a registered service.
\<close>

definition RegisterService :: "service list \<Rightarrow> service \<Rightarrow> error + service list" where
  "RegisterService srv s =
     (case filter (\<lambda>m. m \<in> set (exposed srv)) (service_methods s) of
        [] \<Rightarrow> Inr (srv @ [s])
      | m # _ \<Rightarrow> Inl (RegistrationError m))"

text \<open>
  Modelled from the spec: \<open>broker.NewBroker()\<close> (pkg/broker/server, not under src/), the
  "process-scoped, topic-keyed pub/sub register", with nothing published and not stopped.
\<close>

definition NewBroker :: Broker where
  "NewBroker = \<lparr>published = [], stopped = False\<rparr>"

text \<open>
  Modelled from the spec: \<open>Broker.Publish(topic, event, timeout)\<close> (pkg/broker/server,
  not under src/); the call is recorded with its topic and its timeout in seconds.
\<close>

definition Publish :: "Broker \<Rightarrow> string \<Rightarrow> Event \<Rightarrow> nat \<Rightarrow> Broker" where
  "Publish b topic e timeout = b\<lparr>published := published b @ [(topic, e, timeout)]\<rparr>"

text \<open>
  Modelled from the spec: \<open>Broker.Stop()\<close> (pkg/broker/server, not under src/): "the
  Broker is stopped (no further deliveries to any subscriber)".
\<close>

definition Broker_Stop :: "Broker \<Rightarrow> Broker" where
  "Broker_Stop b = b\<lparr>stopped := True\<rparr>"

text \<open>
  \<open>NewPluginInfo(receiver)\<close> (info.go of the same package, not under src/): only whether
  it returns an error matters here, and that is an answer of the world.
\<close>

definition NewPluginInfo :: "world \<Rightarrow> VersionedInterface \<Rightarrow> error + unit" where
  "NewPluginInfo w receiver = (if plugin_info_fails w receiver then Inl PluginInfoError else Inr ())"

subsection \<open>Operating system: listeners and files\<close>

text \<open>
  \<open>net.Listen(network, addr)\<close>: fails when the system refuses the address; a unix
  socket also fails when its path exists already, and creates the socket file otherwise.
\<close>

definition net_Listen :: "world \<Rightarrow> string \<Rightarrow> string \<Rightarrow> error + (Listener \<times> world)" where
  "net_Listen w net addr =
     (if listen_fails w net addr \<or> (net = ''unix'' \<and> files w addr \<noteq> None)
      then Inl (BindError net addr)
      else let l = \<lparr>network = net, laddr = addr\<rparr>
           in Inr (l, w\<lparr>listeners := listeners w @ [l],
                        files := (if net = ''unix'' then (files w)(addr \<mapsto> SocketFile)
                                  else files w)\<rparr>))"

text \<open>
  \<open>Listener.Close()\<close>: the listener is no longer open; a unix listener made by
  \<open>net.Listen\<close> unlinks its socket file when it is closed.
\<close>

definition Listener_Close :: "world \<Rightarrow> Listener \<Rightarrow> world" where
  "Listener_Close w l =
     w\<lparr>listeners := remove1 l (listeners w),
       files := (if network l = ''unix'' then (files w)(laddr l := None) else files w)\<rparr>"

text \<open>
  \<open>ioutil.WriteFile(path, data, 0644)\<close> opens the file with
  \<open>O_WRONLY|O_CREATE|O_TRUNC\<close>, writes and closes. When the open fails the file system is
  as before; when a later step fails the file exists and holds the bytes written so far.
  The result is the error, if any, and the world after the call.
\<close>

definition WriteFile :: "world \<Rightarrow> string \<Rightarrow> string \<Rightarrow> error option \<times> world" where
  "WriteFile w path data =
     (case write_fails w path of
        None \<Rightarrow> (None, w\<lparr>files := (files w)(path \<mapsto> RegularFile data)\<rparr>)
      | Some OpenFails \<Rightarrow> (Some (MarkerWriteError path), w)
      | Some (WriteFailsAfter n) \<Rightarrow>
          (Some (MarkerWriteError path),
           w\<lparr>files := (files w)(path \<mapsto> RegularFile (take n data))\<rparr>))"

text \<open>\<open>os.Remove(path)\<close>; the caller ignores the error.\<close>

definition os_Remove :: "world \<Rightarrow> string \<Rightarrow> world" where
  "os_Remove w path =
     (if remove_fails w path \<or> files w path = None then w
      else w\<lparr>files := (files w)(path := None)\<rparr>)"


text \<open>
  Modelled from the spec: \<open>graceful.Server.Stop\<close> (gopkg.in/tylerb/graceful.v1, not
  under src/) "transitions to STOPPING, rejects new connections immediately": the
  listener is closed.
\<close>

definition graceful_Stop :: "world \<Rightarrow> Listener \<Rightarrow> world" where
  "graceful_Stop w l = Listener_Close w l"

text \<open>
  Modelled from the spec: the end of the drain of the graceful server (not under src/),
  "RUNNING, STOPPING, STOPPED": the drain runs while the server is STOPPING, that is
  once its listener is closed; when it ends (in-flight requests done or the deadline
  over) the server is STOPPED and its stop channel is closed.
\<close>

definition graceful_drained :: "world \<Rightarrow> Listener \<Rightarrow> world" where
  "graceful_drained w l =
     (if l \<in> set (listeners w) then w else w\<lparr>stop_chan_closed := True\<rparr>)"

text \<open>
  Modelled from the spec: \<open>graceful.Server.Serve\<close> (not under src/) blocks the goroutine
  that called it while the server runs and drains; it has returned only when the server
  is STOPPED.
\<close>

definition graceful_Serve_returned :: "world \<Rightarrow> bool" where
  "graceful_Serve_returned w = stop_chan_closed w"

section \<open>The diagnostic logging wrapper\<close>

record Request =
  req_Method :: string
  req_URL :: string
  req_Body :: string

text \<open>
  A response writer: the header map, whether the status line has been written, the
  status code (200 as long as none is written), the body, the informational responses
  sent before the status line, and whether a call on the writer has panicked. The
  \<open>httptest\<close> recorder and the live connection of \<open>net/http\<close> are both such writers,
  with methods of their own.
\<close>

record ResponseWriter =
  rw_Header :: "string \<rightharpoonup> string list"
  wroteHeader :: bool
  Code :: nat
  Body :: string
  informational :: "nat list"
  panicked :: bool

datatype rw_op = SetHeader string "string list" | WriteHeader nat | Write string

definition NewRecorder :: ResponseWriter where
  "NewRecorder = \<lparr>rw_Header = Map.empty, wroteHeader = False, Code = 200, Body = [],
                   informational = [], panicked = False\<rparr>"

text \<open>
  The live connection as the router hands it over: nothing written, with the headers
  \<open>hdr\<close> (none for the connection of a new request).
\<close>

definition live_writer :: "(string \<rightharpoonup> string list) \<Rightarrow> ResponseWriter" where
  "live_writer hdr = \<lparr>rw_Header = hdr, wroteHeader = False, Code = 200, Body = [],
                      informational = [], panicked = False\<rparr>"

text \<open>\<open>checkWriteHeaderCode\<close>: \<open>WriteHeader\<close> panics unless the code has three digits.\<close>

definition checkWriteHeaderCode :: "nat \<Rightarrow> bool" where
  "checkWriteHeaderCode code = (100 \<le> code \<and> code \<le> 999)"

subsection \<open>The recorder\<close>

text \<open>
  \<open>ResponseRecorder.WriteHeader\<close>: ignored once the status is written, a panic on an
  invalid code, and the code is recorded otherwise, whatever it is.
\<close>

definition rw_WriteHeader :: "ResponseWriter \<Rightarrow> nat \<Rightarrow> ResponseWriter" where
  "rw_WriteHeader rw c =
     (if wroteHeader rw then rw
      else if \<not> checkWriteHeaderCode c then rw\<lparr>panicked := True\<rparr>
      else rw\<lparr>wroteHeader := True, Code := c\<rparr>)"

text \<open>
  \<open>ResponseRecorder.Write\<close>: status 200 when none is written yet, and the bytes are
  appended to the body at every status.
\<close>

definition rw_Write :: "ResponseWriter \<Rightarrow> string \<Rightarrow> ResponseWriter" where
  "rw_Write rw buf = (let rw' = rw_WriteHeader rw 200 in rw'\<lparr>Body := Body rw' @ buf\<rparr>)"

fun rw_apply :: "ResponseWriter \<Rightarrow> rw_op \<Rightarrow> ResponseWriter" where
  "rw_apply rw (SetHeader k v) = rw\<lparr>rw_Header := (rw_Header rw)(k \<mapsto> v)\<rparr>"
| "rw_apply rw (WriteHeader c) = rw_WriteHeader rw c"
| "rw_apply rw (Write buf) = rw_Write rw buf"

text \<open>
  A handler is what it does to the recorder it is given, as a function of the request;
  a call that panics ends the handler.
\<close>

type_synonym Handler = "Request \<Rightarrow> rw_op list"

fun run_handler :: "ResponseWriter \<Rightarrow> rw_op list \<Rightarrow> ResponseWriter" where
  "run_handler rw [] = rw"
| "run_handler rw (x # xs) =
     (let rw' = rw_apply rw x in if panicked rw' then rw' else run_handler rw' xs)"

definition Handler_ServeHTTP :: "Handler \<Rightarrow> ResponseWriter \<Rightarrow> Request \<Rightarrow> ResponseWriter" where
  "Handler_ServeHTTP h rw req = run_handler rw (h req)"

text \<open>\<open>recorder.Result()\<close>: status, headers and body of the recorded response.\<close>

definition Result :: "ResponseWriter \<Rightarrow> nat \<times> (string \<rightharpoonup> string list) \<times> string" where
  "Result rw = (Code rw, rw_Header rw, Body rw)"

subsection \<open>The live connection\<close>

text \<open>\<open>bodyAllowedForStatus\<close> of \<open>net/http\<close>: no body with 1xx, 204 and 304.\<close>

definition bodyAllowedForStatus :: "nat \<Rightarrow> bool" where
  "bodyAllowedForStatus status =
     (\<not> (100 \<le> status \<and> status \<le> 199) \<and> status \<noteq> 204 \<and> status \<noteq> 304)"

text \<open>The informational codes: 1xx other than 101 (Switching Protocols).\<close>

definition informational_code :: "nat \<Rightarrow> bool" where
  "informational_code c = (100 \<le> c \<and> c \<le> 199 \<and> c \<noteq> 101)"

text \<open>
  \<open>WriteHeader\<close> on the connection: ignored once the status line is written, a panic on
  an invalid code; an informational code is sent as an informational response and
  leaves the status line to be written; any other code is the status of the response.
\<close>

definition conn_WriteHeader :: "ResponseWriter \<Rightarrow> nat \<Rightarrow> ResponseWriter" where
  "conn_WriteHeader w c =
     (if wroteHeader w then w
      else if \<not> checkWriteHeaderCode c then w\<lparr>panicked := True\<rparr>
      else if informational_code c then w\<lparr>informational := informational w @ [c]\<rparr>
      else w\<lparr>wroteHeader := True, Code := c\<rparr>)"

text \<open>
  \<open>Write\<close> on the connection of a request with the given method: status 200 when no
  status line is written yet; then the bytes are refused (\<open>ErrBodyNotAllowed\<close>) when the
  status allows no body, discarded when the request is a HEAD request, and sent
  otherwise. A Content-Length set on the connection beforehand would bound the body;
  the wrapper sets none.
\<close>

definition conn_Write :: "string \<Rightarrow> ResponseWriter \<Rightarrow> string \<Rightarrow> ResponseWriter" where
  "conn_Write method w buf =
     (let w' = conn_WriteHeader w 200
      in if buf = [] \<or> \<not> bodyAllowedForStatus (Code w') \<or> method = ''HEAD'' then w'
         else w'\<lparr>Body := Body w' @ buf\<rparr>)"

text \<open>
  \<open>bytes.Buffer.WriteTo(w)\<close>: one \<open>Write\<close> of the buffered bytes, none when the buffer
  is empty; the wrapper ignores what it returns.
\<close>

definition Buffer_WriteTo :: "string \<Rightarrow> string \<Rightarrow> ResponseWriter \<Rightarrow> ResponseWriter" where
  "Buffer_WriteTo buf method w = (if buf = [] then w else conn_Write method w buf)"


subsection \<open>The wrapper\<close>

datatype log_entry = Debugf string | Errorlog error

text \<open>
  \<open>httputil.DumpRequest\<close> and \<open>httputil.DumpResponse\<close> are parameters: each may fail or
  succeed on any input, and \<open>DumpRequest\<close> hands back the request with its body re-read.
\<close>

record dumpers =
  DumpRequest :: "Request \<Rightarrow> (error + string) \<times> Request"
  DumpResponse :: "nat \<times> (string \<rightharpoonup> string list) \<times> string \<Rightarrow> error + string"

definition log_dump :: "string \<Rightarrow> error + string \<Rightarrow> log_entry" where
  "log_dump prefix r = (case r of Inr d \<Rightarrow> Debugf (prefix @ d) | Inl err \<Rightarrow> Errorlog err)"

text \<open>
  Lines 52 to 73. A panic of the wrapped handler leaves \<open>ServeHTTP\<close> at line 62: nothing
  is written to the connection, which the server then aborts.
\<close>

definition loggingHandler_ServeHTTP ::
  "Handler \<Rightarrow> dumpers \<Rightarrow> log_entry list \<times> ResponseWriter \<Rightarrow> Request
     \<Rightarrow> log_entry list \<times> ResponseWriter" where
  "loggingHandler_ServeHTTP h d lw req =
     (let (lg, w) = lw;
          (requestData, req') = DumpRequest d req;
          lg1 = lg @ [log_dump ''Received request '' requestData];
          recorder = Handler_ServeHTTP h NewRecorder req'
      in if panicked recorder then (lg1, w\<lparr>panicked := True\<rparr>)
         else
           (let responseData = DumpResponse d (Result recorder);
                lg2 = lg1 @ [log_dump ''Sending response '' responseData];
                w1 = conn_WriteHeader w (Code recorder);
                w2 = (if panicked w1 then w1
                      else Buffer_WriteTo (Body recorder) (req_Method req') w1)
            in (lg2, w2)))"


section \<open>The subscription gate\<close>

text \<open>
  \<open>Interceptor.Pre\<close>: the first component of the result lists the targets whose
  \<open>Validate\<close> was called, in order; the second is the returned error.
\<close>

fun Pre :: "VersionedInterface list \<Rightarrow> string \<Rightarrow> VersionedInterface list \<times> error option" where
  "Pre [] topic = ([], Some (ErrInvalidTopic topic))"
| "Pre (target # targets) topic =
     (case as_Validator target of
        None \<Rightarrow> Pre targets topic
      | Some v \<Rightarrow>
          (case v (PathFromString topic) of
             None \<Rightarrow> ([target], None)
           | Some err \<Rightarrow> (let (called, r) = Pre targets topic in (target # called, r))))"

section \<open>startAtPath\<close>

text \<open>Lines 104 to 112: the handshake map and the registration of every target.\<close>

fun register_targets ::
  "service list \<Rightarrow> interfaces \<Rightarrow> VersionedInterface list \<Rightarrow> error + (service list \<times> interfaces)" where
  "register_targets server ifs [] = Inr (server, ifs)"
| "register_targets server ifs (t # ts) =
     (let ifs' = ifs(ImplementedInterface t \<mapsto> Types t)
      in case RegisterService server (PluginService t) of
           Inl err \<Rightarrow> Inl err
         | Inr server' \<Rightarrow> register_targets server' ifs' ts)"

text \<open>
  Lines 123 to 143: one channel, one \<open>PublishOn\<close> and one goroutine for every target
  that is a publisher; \<open>i\<close> is the position of the head of the list in \<open>targets\<close>.
\<close>

fun wire_publishers :: "nat \<Rightarrow> VersionedInterface list \<Rightarrow> world \<Rightarrow> world" where
  "wire_publishers i [] w = w"
| "wire_publishers i (t # ts) w =
     (if \<not> is_Publisher t then wire_publishers (Suc i) ts w
      else let eventChan = chan_count w;
               w1 = w\<lparr>chan_count := Suc (chan_count w)\<rparr>;
               w2 = w1\<lparr>publish_on_calls := publish_on_calls w1 @ [(i, eventChan)]\<rparr>;
               w3 = w2\<lparr>tasks := tasks w2 @ [Forwarder eventChan]\<rparr>
           in wire_publishers (Suc i) ts w3)"

text \<open>Lines 183 to 218: bind the listener, and in remote mode write the marker.\<close>

definition bind_listener ::
  "world \<Rightarrow> string list \<Rightarrow> string \<Rightarrow> (error + (string \<times> Listener)) \<times> world" where
  "bind_listener w listen discoverPath =
     (if length listen > 0 then
        (case net_Listen w ''tcp'' (listen ! 0) of
           Inl err \<Rightarrow> (Inl err, w)
         | Inr (l, w1) \<Rightarrow>
             (let advertise = (if length listen > 1 then listen ! 1 else listen ! 0)
              in case WriteFile w1 discoverPath (''tcp://'' @ advertise) of
                   (Some err, w2) \<Rightarrow> (Inl err, w2)
                 | (None, w2) \<Rightarrow> (Inr (listen ! 0, l), w2)))
      else
        (case net_Listen w ''unix'' discoverPath of
           Inl err \<Rightarrow> (Inl err, w)
         | Inr (l, w1) \<Rightarrow> (Inr (''unix://'' @ discoverPath, l), w1)))"

text \<open>
  Lines 96 to 232. Every \<open>return nil, err\<close> of the source is an \<open>Inl\<close> with the world
  as it is at that point; the router and the loggers are values without state and do not
  appear. On success the RPC server is installed behind the router and the goroutine
  that serves the listener is started.
\<close>

definition startAtPath ::
  "world \<Rightarrow> string list \<Rightarrow> string \<Rightarrow> VersionedInterface \<Rightarrow> VersionedInterface list
     \<Rightarrow> (error + stoppableServer) \<times> world" where
  "startAtPath w listen discoverPath receiver more' =
     (let targets = [receiver] @ more'
      in case register_targets [] Map.empty targets of
           Inl err \<Rightarrow> (Inl err, w)
         | Inr (server, ifs) \<Rightarrow>
             (case RegisterService server (HandshakeService ifs) of
                Inl err \<Rightarrow> (Inl err, w)
              | Inr server' \<Rightarrow>
                  (let w1 = w\<lparr>events := NewBroker\<rparr>;
                       w2 = wire_publishers 0 targets w1
                   in case NewPluginInfo w2 receiver of
                        Inl err \<Rightarrow> (Inl err, w2)
                      | Inr info \<Rightarrow>
                          (case bind_listener w2 listen discoverPath of
                             (Inl err, w3) \<Rightarrow> (Inl err, w3)
                           | (Inr (addr, listener), w3) \<Rightarrow>
                               (Inr \<lparr>server_Addr = addr, server_Timeout = 10,
                                     server_listener = listener, server_listen = listen,
                                     server_discoverPath = discoverPath\<rparr>,
                                w3\<lparr>rpc := server', stop_chan_closed := False,
                                   tasks := tasks w3 @ [AcceptLoop listener listen discoverPath]\<rparr>)))))"

definition StartListenerAtPath ::
  "world \<Rightarrow> string list \<Rightarrow> string \<Rightarrow> VersionedInterface \<Rightarrow> VersionedInterface list
     \<Rightarrow> (error + stoppableServer) \<times> world" where
  "StartListenerAtPath w listen discoverPath receiver more' =
     startAtPath w listen discoverPath receiver more'"

definition StartPluginAtPath ::
  "world \<Rightarrow> string \<Rightarrow> VersionedInterface \<Rightarrow> VersionedInterface list
     \<Rightarrow> (error + stoppableServer) \<times> world" where
  "StartPluginAtPath w socketPath receiver more' = startAtPath w [] socketPath receiver more'"

section \<open>The server at run time\<close>

text \<open>What the receive \<open>event, ok := <-eventChan\<close> of a forwarding goroutine yields.\<close>

datatype recv = Closed | Got Event

text \<open>
  Lines 134 to 142, one iteration of the goroutine of channel \<open>c\<close>: it returns when the
  channel is closed and publishes the event with a timeout of one second otherwise.
\<close>

definition forward :: "world \<Rightarrow> nat \<Rightarrow> recv \<Rightarrow> world" where
  "forward w c r =
     (if Forwarder c \<notin> set (tasks w) then w
      else case r of
             Closed \<Rightarrow> w\<lparr>tasks := removeAll (Forwarder c) (tasks w)\<rparr>
           | Got event \<Rightarrow> w\<lparr>events := Publish (events w) (Path_String (Topic event)) event 1\<rparr>)"

text \<open>\<open>stoppableServer.Stop\<close>: the graceful stop with the ten second timeout.\<close>

definition Stop :: "world \<Rightarrow> stoppableServer \<Rightarrow> world" where
  "Stop w s = graceful_Stop w (server_listener s)"

text \<open>
  Lines 221 to 228, after \<open>Serve\<close> has returned: the broker is stopped, and the marker is
  removed when \<open>len(listen) > 0\<close>; then the goroutine is over.
\<close>

definition serve_returned :: "world \<Rightarrow> Listener \<Rightarrow> string list \<Rightarrow> string \<Rightarrow> world" where
  "serve_returned w listener listen discoverPath =
     (if AcceptLoop listener listen discoverPath \<notin> set (tasks w) then w
      else let w1 = w\<lparr>events := Broker_Stop (events w)\<rparr>;
               w2 = (if length listen > 0 then os_Remove w1 discoverPath else w1)
           in w2\<lparr>tasks := removeAll (AcceptLoop listener listen discoverPath) (tasks w2)\<rparr>)"

definition accept_task :: "stoppableServer \<Rightarrow> task" where
  "accept_task s = AcceptLoop (server_listener s) (server_listen s) (server_discoverPath s)"


text \<open>
  \<open>stoppableServer.AwaitStopped\<close> receives from the stop channel: it returns only once
  that channel is closed, and blocks (\<open>None\<close>) until then.
\<close>

definition AwaitStopped :: "world \<Rightarrow> stoppableServer \<Rightarrow> unit option" where
  "AwaitStopped w s = (if stop_chan_closed w then Some () else None)"

text \<open>
  What happens to a started server, one event at a time: a forwarding goroutine
  receives, \<open>Stop\<close> is called, the drain ends, \<open>Serve\<close> returns to its goroutine.
\<close>

datatype action =
    Receive nat recv
  | StopCalled
  | Drained
  | ServeReturned

fun step :: "stoppableServer \<Rightarrow> world \<Rightarrow> action \<Rightarrow> world" where
  "step s w (Receive c r) = forward w c r"
| "step s w StopCalled = Stop w s"
| "step s w Drained = graceful_drained w (server_listener s)"
| "step s w ServeReturned =
     (if graceful_Serve_returned w
      then serve_returned w (server_listener s) (server_listen s) (server_discoverPath s)
      else w)"

text \<open>
  Modelled from the spec: the handshake query (\<open>rpc_server.Handshake\<close>, pkg/rpc, not
  under src/) "takes no arguments and returns the whole map" of the registered handshake
  service.
\<close>

fun Implements :: "service list \<Rightarrow> interfaces option" where
  "Implements [] = None"
| "Implements (PluginService t # srv) = Implements srv"
| "Implements (HandshakeService m # srv) = Some m"


section \<open>Notions used to state the properties\<close>

text \<open>Method sets that are pairwise disjoint.\<close>

fun pairwise_disjoint :: "string list list \<Rightarrow> bool" where
  "pairwise_disjoint [] = True"
| "pairwise_disjoint (x # xs) = ((\<forall>y\<in>set xs. set x \<inter> set y = {}) \<and> pairwise_disjoint xs)"

text \<open>The assignment \<open>interfaces[t.ImplementedInterface()] = t.Types()\<close> of line 107.\<close>

definition put_interface :: "VersionedInterface \<Rightarrow> interfaces \<Rightarrow> interfaces" where
  "put_interface t ifs = ifs(ImplementedInterface t \<mapsto> Types t)"

text \<open>The positions, counted from \<open>i\<close>, of the targets that are publishers.\<close>

definition publisher_positions :: "nat \<Rightarrow> VersionedInterface list \<Rightarrow> nat list" where
  "publisher_positions i ts = map fst (filter (\<lambda>(j, t). is_Publisher t) (enumerate i ts))"

text \<open>The content of the marker file in remote mode.\<close>

definition marker :: "string list \<Rightarrow> string" where
  "marker listen = ''tcp://'' @ (if length listen > 1 then listen ! 1 else listen ! 0)"

text \<open>The state in which lines 123 to 143 leave the world.\<close>

definition wired :: "world \<Rightarrow> VersionedInterface list \<Rightarrow> world" where
  "wired w targets = wire_publishers 0 targets (w\<lparr>events := NewBroker\<rparr>)"

fun is_RegistrationError :: "error \<Rightarrow> bool" where
  "is_RegistrationError (RegistrationError m) = True"
| "is_RegistrationError e = False"




text \<open>A target admits a topic when it is a validator whose \<open>Validate\<close> returns nil.\<close>

definition accepts :: "VersionedInterface \<Rightarrow> string \<Rightarrow> bool" where
  "accepts t topic =
     (case as_Validator t of None \<Rightarrow> False | Some v \<Rightarrow> v (PathFromString topic) = None)"

section \<open>A concrete plugin and a concrete world\<close>

text \<open>
  Object A implements X/1.0 with types a and b. Object B implements Y/1.0 with type c,
  is a publisher, and validates the topic y/evt only.
\<close>

definition objA :: VersionedInterface where
  "objA = \<lparr>ImplementedInterface = \<lparr>Name = ''X'', Version = ''1.0''\<rparr>,
           Types = [''a'', ''b''], Methods = [''A.Do''],
           is_Publisher = False, as_Validator = None\<rparr>"

definition validate_y_evt :: "Path \<Rightarrow> error option" where
  "validate_y_evt p = (if p = PathFromString ''y/evt'' then None
                       else Some (ValidateError (Path_String p)))"

definition objB :: VersionedInterface where
  "objB = \<lparr>ImplementedInterface = \<lparr>Name = ''Y'', Version = ''1.0''\<rparr>,
           Types = [''c''], Methods = [''B.Do''],
           is_Publisher = True, as_Validator = Some validate_y_evt\<rparr>"

text \<open>A second publisher, implementing Z/1.0.\<close>

definition objC :: VersionedInterface where
  "objC = \<lparr>ImplementedInterface = \<lparr>Name = ''Z'', Version = ''1.0''\<rparr>,
           Types = [''d''], Methods = [''C.Do''],
           is_Publisher = True, as_Validator = None\<rparr>"

text \<open>A second object that implements X/1.0, with another type list.\<close>

definition objA2 :: VersionedInterface where
  "objA2 = \<lparr>ImplementedInterface = \<lparr>Name = ''X'', Version = ''1.0''\<rparr>,
            Types = [''z''], Methods = [''A2.Do''],
            is_Publisher = False, as_Validator = None\<rparr>"

text \<open>An object that exposes a method under the name of the handshake service's method.\<close>

definition objH :: VersionedInterface where
  "objH = \<lparr>ImplementedInterface = \<lparr>Name = ''H'', Version = ''1.0''\<rparr>,
           Types = [], Methods = [''Handshake.Implements''],
           is_Publisher = False, as_Validator = None\<rparr>"

text \<open>An empty world in which the operating system refuses nothing.\<close>

definition world0 :: world where
  "world0 = \<lparr>files = Map.empty, listeners = [], tasks = [], chan_count = 0,
             publish_on_calls = [], events = NewBroker, rpc = [], stop_chan_closed = False,
             listen_fails = (\<lambda>net addr. False), write_fails = (\<lambda>path. None),
             remove_fails = (\<lambda>path. False), plugin_info_fails = (\<lambda>t. False)\<rparr>"

text \<open>
  The same world, but no file can be opened for writing, or the removal of files fails,
  or no address can be bound.
\<close>

definition world_write_fails :: world where
  "world_write_fails = world0\<lparr>write_fails := (\<lambda>path. Some OpenFails)\<rparr>"


definition world_listen_fails :: world where
  "world_listen_fails = world0\<lparr>listen_fails := (\<lambda>net addr. True)\<rparr>"



text \<open>A handler that answers with a JSON body, and dumpers that always fail.\<close>

definition json_handler :: Handler where
  "json_handler req =
     [SetHeader ''Content-Type'' [''application/json''], WriteHeader 200, Write (req_Body req)]"




definition failing_dumpers :: dumpers where
  "failing_dumpers = \<lparr>DumpRequest = (\<lambda>req. (Inl (DumpError ''request''), req)),
                      DumpResponse = (\<lambda>resp. Inl (DumpError ''response''))\<rparr>"

definition post_request :: Request where
  "post_request = \<lparr>req_Method = ''POST'', req_URL = ''/'', req_Body = ''{}''\<rparr>"



section \<open>The subscription gate admits a topic iff a validator accepts it\<close>

lemma Pre_Cons:
  "Pre (t # ts) topic =
     (if accepts t topic then ([t], None)
      else if as_Validator t = None then Pre ts topic
      else (t # fst (Pre ts topic), snd (Pre ts topic)))"
  by (cases "as_Validator t") (auto simp: accepts_def split: option.splits prod.splits)

lemma Pre_result:
  "snd (Pre targets topic) =
     (if \<exists>t\<in>set targets. accepts t topic then None else Some (ErrInvalidTopic topic))"
proof (induction targets)
  case Nil
  show ?case by simp
next
  case (Cons t ts)
  show ?case unfolding Pre_Cons using Cons.IH by simp
qed

lemma Pre_short_circuit:
  "\<forall>t\<in>set ts. \<not> accepts t topic \<Longrightarrow> accepts t topic \<Longrightarrow>
   Pre (ts @ t # rest) topic = (filter (\<lambda>t. as_Validator t \<noteq> None) ts @ [t], None)"
proof (induction ts)
  case Nil
  then show ?case by (simp add: Pre_Cons del: Pre.simps)
next
  case (Cons a ts)
  then show ?case by (simp add: Pre_Cons del: Pre.simps)
qed

lemma accepts_iff:
  "accepts t topic = (\<exists>v. as_Validator t = Some v \<and> v (PathFromString topic) = None)"
  by (cases "as_Validator t") (simp_all add: accepts_def)

text \<open>
  C4: a subscription request for a topic is admitted (\<open>Pre\<close> returns nil) if and only if
  some backing object implements Validator and its Validate succeeds on the topic; a
  rejection is always \<open>ErrInvalidTopic\<close> of that topic, in particular when no backing
  object implements Validator; and the first success ends the iteration: the objects
  after it are not asked, whatever they are.
\<close>

theorem Pre_admits_iff_some_validator_accepts:
  "(snd (Pre targets topic) = None
      \<longleftrightarrow> (\<exists>t\<in>set targets. \<exists>v. as_Validator t = Some v \<and> v (PathFromString topic) = None))
   \<and> (snd (Pre targets topic) \<noteq> None \<longrightarrow> snd (Pre targets topic) = Some (ErrInvalidTopic topic))
   \<and> ((\<forall>t\<in>set targets. as_Validator t = None)
        \<longrightarrow> snd (Pre targets topic) = Some (ErrInvalidTopic topic))
   \<and> (\<forall>before t rest. targets = before @ t # rest \<and> accepts t topic
          \<and> (\<forall>u\<in>set before. \<not> accepts u topic)
        \<longrightarrow> Pre targets topic = (filter (\<lambda>u. as_Validator u \<noteq> None) before @ [t], None))"
proof (intro conjI)
  show "snd (Pre targets topic) = None
      \<longleftrightarrow> (\<exists>t\<in>set targets. \<exists>v. as_Validator t = Some v \<and> v (PathFromString topic) = None)"
    by (simp add: Pre_result accepts_iff)
  show "snd (Pre targets topic) \<noteq> None \<longrightarrow> snd (Pre targets topic) = Some (ErrInvalidTopic topic)"
    by (simp add: Pre_result)
  show "(\<forall>t\<in>set targets. as_Validator t = None)
        \<longrightarrow> snd (Pre targets topic) = Some (ErrInvalidTopic topic)"
    by (auto simp: Pre_result accepts_iff)
  show "\<forall>before t rest. targets = before @ t # rest \<and> accepts t topic
          \<and> (\<forall>u\<in>set before. \<not> accepts u topic)
        \<longrightarrow> Pre targets topic = (filter (\<lambda>u. as_Validator u \<noteq> None) before @ [t], None)"
    using Pre_short_circuit by blast
qed

theorem Pre_admits_witness:
  "snd (Pre [objA, objB] ''y/evt'') = None
   \<and> snd (Pre [objA, objB] ''z/other'') = Some (ErrInvalidTopic ''z/other'')
   \<and> snd (Pre [objA] ''y/evt'') = Some (ErrInvalidTopic ''y/evt'')
   \<and> Pre [objA, objB, objA2] ''y/evt'' = ([objB], None)"
proof -
  note main = Pre_admits_iff_some_validator_accepts
  have yes: "\<exists>t\<in>set [objA, objB]. \<exists>v. as_Validator t = Some v \<and> v (PathFromString ''y/evt'') = None"
    by (simp add: objB_def validate_y_evt_def)
  have no: "\<not> (\<exists>t\<in>set [objA, objB]. \<exists>v. as_Validator t = Some v \<and> v (PathFromString ''z/other'') = None)"
    by (simp add: objA_def objB_def validate_y_evt_def)
  have none: "\<forall>t\<in>set [objA]. as_Validator t = None"
    by (simp add: objA_def)
  have accB: "accepts objB ''y/evt''" and accA: "\<forall>u\<in>set [objA]. \<not> accepts u ''y/evt''"
    by (simp_all add: accepts_def objA_def objB_def validate_y_evt_def)
  have valA: "filter (\<lambda>u. as_Validator u \<noteq> None) [objA] = []"
    by (simp add: objA_def)
  from main [of "[objA, objB]" "''y/evt''"] yes
  have 1: "snd (Pre [objA, objB] ''y/evt'') = None" by blast
  from main [of "[objA, objB]" "''z/other''"] no
  have 2: "snd (Pre [objA, objB] ''z/other'') = Some (ErrInvalidTopic ''z/other'')" by blast
  from main [of "[objA]" "''y/evt''"] none
  have 3: "snd (Pre [objA] ''y/evt'') = Some (ErrInvalidTopic ''y/evt'')" by blast
  have split: "[objA, objB, objA2] = [objA] @ objB # [objA2]" by simp
  from main [of "[objA, objB, objA2]" "''y/evt''"] split accB accA
  have "Pre [objA, objB, objA2] ''y/evt'' = (filter (\<lambda>u. as_Validator u \<noteq> None) [objA] @ [objB], None)"
    by blast
  then have 4: "Pre [objA, objB, objA2] ''y/evt'' = ([objB], None)"
    by (simp only: valA append_Nil)
  from 1 2 3 4 show ?thesis by (intro conjI)
qed

section \<open>What the logging wrapper delivers\<close>




lemma conn_header_frame:
  "rw_Header (conn_WriteHeader w c) = rw_Header w"
  "rw_Header (Buffer_WriteTo buf method w) = rw_Header w"
  by (simp_all add: conn_WriteHeader_def Buffer_WriteTo_def conn_Write_def Let_def)






lemma logging_headers:
  "rw_Header (snd (loggingHandler_ServeHTTP h d (lg, live_writer hdr) req)) = hdr"
  by (simp add: loggingHandler_ServeHTTP_def Let_def split_beta conn_header_frame
        live_writer_def)

text \<open>
  C10: the wrapper replays the recorded status code and body only: the headers of the
  live connection are those it had before, whatever headers the wrapped handler set on
  the recorder.
\<close>

theorem loggingHandler_does_not_copy_headers:
  "rw_Header (snd (loggingHandler_ServeHTTP h d (lg, live_writer hdr) req)) = hdr"
  by (rule logging_headers)

theorem loggingHandler_headers_witness:
  "rw_Header (Handler_ServeHTTP json_handler NewRecorder post_request) ''Content-Type''
     = Some [''application/json'']
   \<and> rw_Header (snd (loggingHandler_ServeHTTP json_handler failing_dumpers
                       ([], live_writer Map.empty) post_request)) ''Content-Type'' = None"
  using loggingHandler_does_not_copy_headers
          [of json_handler failing_dumpers "[]" Map.empty post_request]
  by (simp add: Handler_ServeHTTP_def json_handler_def NewRecorder_def rw_WriteHeader_def
        rw_Write_def checkWriteHeaderCode_def Let_def)

section \<open>Registration and the handshake map\<close>

lemma put_interface_apply:
  "put_interface t ifs k = (if k = ImplementedInterface t then Some (Types t) else ifs k)"
  by (simp add: put_interface_def)

lemma RegisterService_ok:
  "set (service_methods s) \<inter> set (exposed srv) = {} \<Longrightarrow> RegisterService srv s = Inr (srv @ [s])"
proof -
  assume "set (service_methods s) \<inter> set (exposed srv) = {}"
  then have "filter (\<lambda>m. m \<in> set (exposed srv)) (service_methods s) = []"
    by (auto simp: filter_empty_conv)
  then show ?thesis by (simp add: RegisterService_def)
qed

lemma RegisterService_Inr:
  "RegisterService srv s = Inr srv' \<Longrightarrow> srv' = srv @ [s]"
  by (auto simp: RegisterService_def split: list.splits)

lemma RegisterService_Inl:
  "RegisterService srv s = Inl e \<Longrightarrow> \<exists>m. e = RegistrationError m"
  by (auto simp: RegisterService_def split: list.splits)

lemma exposed_append: "exposed (srv @ [s]) = exposed srv @ service_methods s"
  by (simp add: exposed_def)

lemma exposed_plugins: "exposed (map PluginService ts) = concat (map Methods ts)"
  by (induction ts) (simp_all add: exposed_def)

lemma register_targets_Inr:
  "register_targets srv ifs ts = Inr (srv', ifs') \<Longrightarrow>
     srv' = srv @ map PluginService ts \<and> ifs' = fold put_interface ts ifs"
proof (induction ts arbitrary: srv ifs)
  case Nil
  then show ?case by simp
next
  case (Cons t ts)
  from Cons.prems obtain s1 where
    r: "RegisterService srv (PluginService t) = Inr s1" and
    rest: "register_targets s1 (ifs(ImplementedInterface t \<mapsto> Types t)) ts = Inr (srv', ifs')"
    by (auto simp: Let_def split: sum.splits)
  from r have s1: "s1 = srv @ [PluginService t]" by (rule RegisterService_Inr)
  from rest have "register_targets s1 (put_interface t ifs) ts = Inr (srv', ifs')"
    by (simp only: put_interface_def)
  from Cons.IH [OF this] s1 show ?case by simp
qed

lemma register_targets_Inl:
  "register_targets srv ifs ts = Inl e \<Longrightarrow> \<exists>m. e = RegistrationError m"
proof (induction ts arbitrary: srv ifs)
  case Nil
  then show ?case by simp
next
  case (Cons t ts)
  show ?case
  proof (cases "RegisterService srv (PluginService t)")
    case (Inl e')
    with Cons.prems have "e = e'" by (simp add: Let_def)
    with Inl show ?thesis by (auto dest: RegisterService_Inl)
  next
    case (Inr s1)
    with Cons.prems
    have "register_targets s1 (ifs(ImplementedInterface t \<mapsto> Types t)) ts = Inl e"
      by (simp add: Let_def)
    then show ?thesis by (rule Cons.IH)
  qed
qed

lemma register_targets_ok:
  "pairwise_disjoint (map Methods ts) \<Longrightarrow>
   \<forall>t\<in>set ts. set (Methods t) \<inter> set (exposed srv) = {} \<Longrightarrow>
   register_targets srv ifs ts = Inr (srv @ map PluginService ts, fold put_interface ts ifs)"
proof (induction ts arbitrary: srv ifs)
  case Nil
  then show ?case by simp
next
  case (Cons t ts)
  have r: "RegisterService srv (PluginService t) = Inr (srv @ [PluginService t])"
    using Cons.prems(2) by (intro RegisterService_ok) simp
  have d: "pairwise_disjoint (map Methods ts)" using Cons.prems(1) by simp
  have e: "\<forall>u\<in>set ts. set (Methods u) \<inter> set (exposed (srv @ [PluginService t])) = {}"
    using Cons.prems by (auto simp: exposed_append)
  have "register_targets srv ifs (t # ts)
      = register_targets (srv @ [PluginService t]) (put_interface t ifs) ts"
    using r by (simp add: put_interface_def)
  with Cons.IH [OF d e, of "put_interface t ifs"] show ?case by simp
qed

lemma dom_put_interface: "dom (put_interface t ifs) = insert (ImplementedInterface t) (dom ifs)"
  by (simp add: put_interface_def)

lemma dom_fold_put: "dom (fold put_interface ts ifs) = dom ifs \<union> ImplementedInterface ` set ts"
  by (induction ts arbitrary: ifs) (auto simp: dom_put_interface)

lemma fold_put_later:
  "\<forall>u\<in>set us. ImplementedInterface u \<noteq> k \<Longrightarrow> fold put_interface us ifs k = ifs k"
  by (induction us arbitrary: ifs) (auto simp: put_interface_apply)

lemma fold_put_value:
  "k \<in> ImplementedInterface ` set ts \<Longrightarrow>
   \<exists>t\<in>set ts. ImplementedInterface t = k \<and> fold put_interface ts ifs k = Some (Types t)"
proof (induction ts arbitrary: ifs rule: rev_induct)
  case Nil
  then show ?case by simp
next
  case (snoc t ts)
  show ?case
  proof (cases "ImplementedInterface t = k")
    case True
    then show ?thesis by (simp add: put_interface_apply)
  next
    case False
    with snoc.prems have "k \<in> ImplementedInterface ` set ts" by auto
    from snoc.IH [OF this, of ifs] False show ?thesis by (auto simp: put_interface_apply)
  qed
qed

lemma fold_put_last:
  assumes j: "j < length ts"
    and later: "\<forall>k. j < k \<and> k < length ts
                  \<longrightarrow> ImplementedInterface (ts ! k) \<noteq> ImplementedInterface (ts ! j)"
  shows "fold put_interface ts ifs (ImplementedInterface (ts ! j)) = Some (Types (ts ! j))"
proof -
  define us where "us = drop (Suc j) ts"
  have split: "ts = (take j ts @ [ts ! j]) @ us"
    using j by (simp add: us_def Cons_nth_drop_Suc)
  have "\<forall>u\<in>set us. ImplementedInterface u \<noteq> ImplementedInterface (ts ! j)"
  proof
    fix u assume "u \<in> set us"
    then obtain n where n: "n < length us" "u = us ! n" by (auto simp: in_set_conv_nth)
    then have "u = ts ! (Suc j + n)" "Suc j + n < length ts" using j by (auto simp: us_def)
    with later show "ImplementedInterface u \<noteq> ImplementedInterface (ts ! j)" by auto
  qed
  then have "fold put_interface us (fold put_interface (take j ts @ [ts ! j]) ifs)
               (ImplementedInterface (ts ! j))
      = fold put_interface (take j ts @ [ts ! j]) ifs (ImplementedInterface (ts ! j))"
    by (rule fold_put_later)
  also have "\<dots> = Some (Types (ts ! j))" by (simp add: put_interface_apply)
  finally have "fold put_interface ((take j ts @ [ts ! j]) @ us) ifs
                  (ImplementedInterface (ts ! j)) = Some (Types (ts ! j))"
    by (simp only: fold_append comp_apply)
  with split show ?thesis by simp
qed

lemma Implements_registered:
  "Implements (map PluginService ts @ [HandshakeService m]) = Some m"
  by (induction ts) simp_all

section \<open>Publishers, listeners and the outcome of startAtPath\<close>

lemma publisher_positions_Nil: "publisher_positions i [] = []"
  by (simp add: publisher_positions_def)

lemma publisher_positions_Cons:
  "publisher_positions i (t # ts) =
     (if is_Publisher t then i # publisher_positions (Suc i) ts
      else publisher_positions (Suc i) ts)"
  by (simp add: publisher_positions_def)

lemma upt_shift: "[n..<Suc (n + k)] = n # [Suc n..<Suc (n + k)]"
  by (simp add: upt_conv_Cons)

lemma wire_publishers_eq:
  "wire_publishers i ts w =
     w\<lparr>tasks := tasks w @ map Forwarder
                   [chan_count w..<chan_count w + length (publisher_positions i ts)],
       chan_count := chan_count w + length (publisher_positions i ts),
       publish_on_calls := publish_on_calls w @
          zip (publisher_positions i ts)
              [chan_count w..<chan_count w + length (publisher_positions i ts)]\<rparr>"
proof (induction ts arbitrary: i w)
  case Nil
  show ?case by (simp add: publisher_positions_Nil)
next
  case (Cons t ts)
  show ?case
  proof (cases "is_Publisher t")
    case False
    then show ?thesis using Cons.IH [of "Suc i" w] by (simp add: publisher_positions_Cons)
  next
    case True
    define w3 where "w3 = w\<lparr>chan_count := Suc (chan_count w),
        publish_on_calls := publish_on_calls w @ [(i, chan_count w)],
        tasks := tasks w @ [Forwarder (chan_count w)]\<rparr>"
    have step: "wire_publishers i (t # ts) w = wire_publishers (Suc i) ts w3"
      using True by (simp add: w3_def Let_def)
    show ?thesis
      unfolding step Cons.IH [of "Suc i" w3]
      using True
      by (simp add: w3_def publisher_positions_Cons upt_shift del: upt_Suc)
  qed
qed

lemma enumerate_0_nth: "enumerate 0 ts = map (\<lambda>j. (j, ts ! j)) [0..<length ts]"
  by (rule nth_equalityI) (simp_all add: nth_enumerate_eq)

lemma publisher_positions_0:
  "publisher_positions 0 ts = filter (\<lambda>j. is_Publisher (ts ! j)) [0..<length ts]"
  unfolding publisher_positions_def enumerate_0_nth
  by (simp add: filter_map comp_def)

lemma length_publisher_positions:
  "length (publisher_positions i ts) = length (filter is_Publisher ts)"
  by (induction ts arbitrary: i) (simp_all add: publisher_positions_Nil publisher_positions_Cons)

lemma bind_listener_remote:
  "listen \<noteq> [] \<Longrightarrow> bind_listener w listen path =
     (if listen_fails w ''tcp'' (listen ! 0) then (Inl (BindError ''tcp'' (listen ! 0)), w)
      else case write_fails w path of
             None \<Rightarrow>
               (Inr (listen ! 0, \<lparr>network = ''tcp'', laddr = listen ! 0\<rparr>),
                w\<lparr>listeners := listeners w @ [\<lparr>network = ''tcp'', laddr = listen ! 0\<rparr>],
                  files := (files w)(path \<mapsto> RegularFile (marker listen))\<rparr>)
           | Some OpenFails \<Rightarrow>
               (Inl (MarkerWriteError path),
                w\<lparr>listeners := listeners w @ [\<lparr>network = ''tcp'', laddr = listen ! 0\<rparr>]\<rparr>)
           | Some (WriteFailsAfter n) \<Rightarrow>
               (Inl (MarkerWriteError path),
                w\<lparr>listeners := listeners w @ [\<lparr>network = ''tcp'', laddr = listen ! 0\<rparr>],
                  files := (files w)(path \<mapsto> RegularFile (take n (marker listen)))\<rparr>))"
  by (simp add: bind_listener_def net_Listen_def WriteFile_def Let_def marker_def
        split: option.split write_failure.split)

lemma bind_listener_local:
  "bind_listener w [] path =
     (if listen_fails w ''unix'' path \<or> files w path \<noteq> None
      then (Inl (BindError ''unix'' path), w)
      else (Inr (''unix://'' @ path, \<lparr>network = ''unix'', laddr = path\<rparr>),
            w\<lparr>listeners := listeners w @ [\<lparr>network = ''unix'', laddr = path\<rparr>],
              files := (files w)(path \<mapsto> SocketFile)\<rparr>))"
  by (simp add: bind_listener_def net_Listen_def Let_def)

lemma startAtPath_Inr:
  assumes "startAtPath w listen path r m = (Inr s, w')"
  shows "\<exists>srv ifs addr l w3.
      register_targets [] Map.empty (r # m) = Inr (srv, ifs)
    \<and> RegisterService srv (HandshakeService ifs) = Inr (srv @ [HandshakeService ifs])
    \<and> bind_listener (wired w (r # m)) listen path = (Inr (addr, l), w3)
    \<and> s = \<lparr>server_Addr = addr, server_Timeout = 10, server_listener = l,
            server_listen = listen, server_discoverPath = path\<rparr>
    \<and> w' = w3\<lparr>rpc := srv @ [HandshakeService ifs], stop_chan_closed := False,
              tasks := tasks w3 @ [AcceptLoop l listen path]\<rparr>"
proof -
  from assms obtain srv ifs where reg: "register_targets [] Map.empty (r # m) = Inr (srv, ifs)"
    by (cases "register_targets [] Map.empty (r # m)")
       (auto simp: startAtPath_def simp del: register_targets.simps)
  from assms reg obtain srv' where hs: "RegisterService srv (HandshakeService ifs) = Inr srv'"
    by (cases "RegisterService srv (HandshakeService ifs)")
       (auto simp: startAtPath_def simp del: register_targets.simps)
  then have srv': "srv' = srv @ [HandshakeService ifs]" by (rule RegisterService_Inr)
  from assms reg hs have info: "NewPluginInfo (wired w (r # m)) r = Inr ()"
    by (cases "NewPluginInfo (wired w (r # m)) r")
       (auto simp: startAtPath_def wired_def Let_def simp del: register_targets.simps)
  obtain res w3 where b: "bind_listener (wired w (r # m)) listen path = (res, w3)"
    by (cases "bind_listener (wired w (r # m)) listen path")
  from assms reg hs info b obtain addr l where res: "res = Inr (addr, l)"
    by (cases res) (auto simp: startAtPath_def wired_def Let_def simp del: register_targets.simps)
  from assms reg hs info b res srv' show ?thesis
    by (auto simp: startAtPath_def wired_def Let_def simp del: register_targets.simps)
qed

lemma startAtPath_Inl:
  assumes "startAtPath w listen path r m = (Inl e, w')"
  shows "(is_RegistrationError e \<and> w' = w
          \<and> (register_targets [] Map.empty (r # m) = Inl e
               \<or> (\<exists>srv ifs. register_targets [] Map.empty (r # m) = Inr (srv, ifs)
                     \<and> RegisterService srv (HandshakeService ifs) = Inl e)))
       \<or> (e = PluginInfoError \<and> w' = wired w (r # m))
       \<or> (\<not> is_RegistrationError e \<and> bind_listener (wired w (r # m)) listen path = (Inl e, w'))"
proof (cases "register_targets [] Map.empty (r # m)")
  case (Inl e')
  with assms have "e = e'" "w' = w"
    by (auto simp: startAtPath_def simp del: register_targets.simps)
  moreover from register_targets_Inl [OF Inl] obtain x where "e' = RegistrationError x" ..
  ultimately show ?thesis using Inl by simp
next
  case (Inr p)
  obtain srv ifs where p: "p = (srv, ifs)" by (cases p)
  show ?thesis
  proof (cases "RegisterService srv (HandshakeService ifs)")
    case (Inl e')
    with assms Inr p have "e = e'" "w' = w"
      by (auto simp: startAtPath_def simp del: register_targets.simps)
    moreover from RegisterService_Inl [OF Inl] obtain x where "e' = RegistrationError x" ..
    ultimately show ?thesis using Inl Inr p by simp
  next
    case hs: (Inr srv')
    show ?thesis
    proof (cases "NewPluginInfo (wired w (r # m)) r")
      case (Inl e')
      then have "e' = PluginInfoError" by (auto simp: NewPluginInfo_def split: if_splits)
      with assms Inr p hs Inl show ?thesis
        by (auto simp: startAtPath_def wired_def Let_def simp del: register_targets.simps)
    next
      case info: (Inr u)
      obtain res w3 where b: "bind_listener (wired w (r # m)) listen path = (res, w3)"
        by (cases "bind_listener (wired w (r # m)) listen path")
      from assms Inr p hs info b have eq: "res = Inl e \<and> w3 = w'"
        by (cases res)
           (auto simp: startAtPath_def wired_def Let_def simp del: register_targets.simps)
      have "\<not> is_RegistrationError e"
      proof (cases "listen = []")
        case True
        with b eq show ?thesis by (auto simp: bind_listener_local split: if_splits)
      next
        case False
        with b eq show ?thesis by (auto simp: bind_listener_remote split: if_splits option.splits write_failure.splits)
      qed
      with b eq show ?thesis by simp
    qed
  qed
qed


lemmas start_eval =
  startAtPath_def StartListenerAtPath_def StartPluginAtPath_def RegisterService_def
  exposed_def handshake_methods_def NewPluginInfo_def bind_listener_def net_Listen_def
  WriteFile_def NewBroker_def Let_def world0_def world_write_fails_def world_listen_fails_def
  objA_def objB_def objA2_def objH_def

section \<open>Errors of startAtPath\<close>

text \<open>
  C1 asks that the listener be closed when the marker cannot be written. The code returns
  the error of \<open>ioutil.WriteFile\<close> at once (lines 200 to 202): with one address to
  listen on and a marker path that cannot be written, \<open>startAtPath\<close> returns the
  write error and the TCP listener it has bound is still open.
\<close>

theorem startAtPath_marker_write_failure_leaves_listener_open:
  "startAtPath world_write_fails [''127.0.0.1:24864''] ''/run/plugins/instance'' objA []
     = (Inl (MarkerWriteError ''/run/plugins/instance''),
        world_write_fails\<lparr>events := NewBroker,
          listeners := [\<lparr>network = ''tcp'', laddr = ''127.0.0.1:24864''\<rparr>]\<rparr>)"
  by (simp add: start_eval)

text \<open>
  C2 does not hold as stated: a publisher is started in local mode in a world where no
  address can be bound; the call returns the bind error, and the forwarding goroutine of
  the publisher's channel is running.
\<close>

theorem start_error_leaves_forwarder_running:
  "StartPluginAtPath world_listen_fails ''/tmp/test.sock'' objB []
     = (Inl (BindError ''unix'' ''/tmp/test.sock''),
        world_listen_fails\<lparr>events := NewBroker, chan_count := 1,
          publish_on_calls := [(0, 0)], tasks := [Forwarder 0]\<rparr>)"
  by (simp add: start_eval)

text \<open>
  C3 does not hold as stated: the method names of the two objects are disjoint, but one
  of them is the name under which the handshake service exposes its method, and the
  registration of the handshake service (line 115) fails.
\<close>

theorem handshake_name_collision_fails_registration:
  "pairwise_disjoint (map Methods [objA, objH])
   \<and> fst (startAtPath world0 [] ''/tmp/test.sock'' objA [objH])
       = Inl (RegistrationError ''Handshake.Implements'')"
  by (simp add: start_eval)

lemma run_local:
  "startAtPath world0 [] ''/tmp/test.sock'' objA [objB]
     = (Inr \<lparr>server_Addr = ''unix:///tmp/test.sock'', server_Timeout = 10,
             server_listener = \<lparr>network = ''unix'', laddr = ''/tmp/test.sock''\<rparr>,
             server_listen = [], server_discoverPath = ''/tmp/test.sock''\<rparr>,
        world0\<lparr>files := [''/tmp/test.sock'' \<mapsto> SocketFile],
          listeners := [\<lparr>network = ''unix'', laddr = ''/tmp/test.sock''\<rparr>],
          tasks := [Forwarder 0, AcceptLoop \<lparr>network = ''unix'', laddr = ''/tmp/test.sock''\<rparr>
                                   [] ''/tmp/test.sock''],
          chan_count := 1, publish_on_calls := [(1, 0)], events := NewBroker,
          rpc := [PluginService objA, PluginService objB,
                  HandshakeService [\<lparr>Name = ''X'', Version = ''1.0''\<rparr> \<mapsto> [''a'', ''b''],
                                    \<lparr>Name = ''Y'', Version = ''1.0''\<rparr> \<mapsto> [''c'']]]\<rparr>)"
  by (simp add: start_eval)


lemma length_positions_0:
  "length (filter (\<lambda>j. is_Publisher (ts ! j)) [0..<length ts])
     = length (filter is_Publisher (ts :: VersionedInterface list))"
  using length_publisher_positions [of 0 ts] by (simp add: publisher_positions_0)

lemma wired_fields:
  "tasks (wired w ts) = tasks w @ map Forwarder
      [chan_count w..<chan_count w + length (filter is_Publisher ts)]"
  "chan_count (wired w ts) = chan_count w + length (filter is_Publisher ts)"
  "publish_on_calls (wired w ts) = publish_on_calls w @
      zip (filter (\<lambda>j. is_Publisher (ts ! j)) [0..<length ts])
          [chan_count w..<chan_count w + length (filter is_Publisher ts)]"
  "files (wired w ts) = files w"
  "listeners (wired w ts) = listeners w"
  "events (wired w ts) = NewBroker"
  "listen_fails (wired w ts) = listen_fails w"
  "write_fails (wired w ts) = write_fails w"
  "remove_fails (wired w ts) = remove_fails w"
  unfolding wired_def wire_publishers_eq [of 0 ts]
  by (simp_all add: publisher_positions_0 length_positions_0)

lemma bind_listener_frame:
  assumes "bind_listener w listen path = (r, w')"
  shows "tasks w' = tasks w \<and> chan_count w' = chan_count w
       \<and> publish_on_calls w' = publish_on_calls w \<and> events w' = events w
       \<and> remove_fails w' = remove_fails w"
proof (cases "listen = []")
  case True
  with assms show ?thesis by (auto simp: bind_listener_local split: if_splits)
next
  case False
  with assms show ?thesis by (auto simp: bind_listener_remote split: if_splits option.splits write_failure.splits)
qed

text \<open>
  In general: whenever \<open>startAtPath\<close> returns the error of the marker write, the mode is
  remote and the listener bound by the call is among the open listeners.
\<close>

lemma marker_write_error_keeps_listener:
  assumes "startAtPath w listen discoverPath receiver more' = (Inl (MarkerWriteError q), w')"
  shows "listen \<noteq> []
       \<and> listeners w' = listeners w @ [\<lparr>network = ''tcp'', laddr = listen ! 0\<rparr>]"
proof -
  from startAtPath_Inl [OF assms]
  have b: "bind_listener (wired w (receiver # more')) listen discoverPath
             = (Inl (MarkerWriteError q), w')"
    by auto
  show ?thesis
  proof (cases "listen = []")
    case True
    with b show ?thesis by (auto simp: bind_listener_local split: if_splits)
  next
    case False
    with b show ?thesis by (auto simp: bind_listener_remote wired_fields split: if_splits option.splits write_failure.splits)
  qed
qed

text \<open>
  C2, as the code has it: when \<open>StartListenerAtPath\<close> or \<open>StartPluginAtPath\<close> returns an
  error, the goroutine that serves the listener has not been started, and after a
  registration error no goroutine of the call runs at all; after any other error
  (plugin info, bind, marker write) the forwarding goroutines started for the publishers,
  one per publisher, are still running.
\<close>

theorem start_error_leaves_only_forwarders:
  assumes "StartListenerAtPath w listen path receiver more' = (Inl e, w')
         \<or> StartPluginAtPath w path receiver more' = (Inl e, w')"
  shows "tasks w' = tasks w @
           (if is_RegistrationError e then []
            else map Forwarder
                   [chan_count w..<chan_count w + length (filter is_Publisher (receiver # more'))])"
proof -
  from assms obtain ls where run: "startAtPath w ls path receiver more' = (Inl e, w')"
    by (auto simp: StartListenerAtPath_def StartPluginAtPath_def)
  from startAtPath_Inl [OF run]
  consider (reg) "is_RegistrationError e" "w' = w"
    | (info) "e = PluginInfoError" "w' = wired w (receiver # more')"
    | (bind) "\<not> is_RegistrationError e"
        "bind_listener (wired w (receiver # more')) ls path = (Inl e, w')"
    by blast
  then show ?thesis
  proof cases
    case reg
    then show ?thesis by simp
  next
    case info
    then show ?thesis by (simp add: wired_fields)
  next
    case bind
    from bind_listener_frame [OF bind(2)] bind(1) show ?thesis by (simp add: wired_fields)
  qed
qed

theorem start_error_witness:
  "tasks (snd (StartPluginAtPath world_listen_fails ''/tmp/test.sock'' objB [])) = [Forwarder 0]
   \<and> tasks (snd (StartPluginAtPath world0 ''/tmp/test.sock'' objH [])) = []"
proof -
  have 1: "StartPluginAtPath world_listen_fails ''/tmp/test.sock'' objB []
     = (Inl (BindError ''unix'' ''/tmp/test.sock''),
        snd (StartPluginAtPath world_listen_fails ''/tmp/test.sock'' objB []))"
    by (simp add: start_eval)
  have 2: "StartPluginAtPath world0 ''/tmp/test.sock'' objH []
     = (Inl (RegistrationError ''Handshake.Implements''),
        snd (StartPluginAtPath world0 ''/tmp/test.sock'' objH []))"
    by (simp add: start_eval)
  from start_error_leaves_only_forwarders [OF disjI2, OF 1]
       start_error_leaves_only_forwarders [OF disjI2, OF 2]
  show ?thesis
    by (simp add: world_listen_fails_def world0_def objB_def objH_def)
qed

text \<open>
  C6: in remote mode a successful start has bound a TCP listener on the first address,
  and the marker file at the discovery path holds exactly \<open>tcp://\<close> followed by the
  second address when there is one and by the first address otherwise.
\<close>

theorem remote_mode_marker_content:
  assumes "listen \<noteq> []"
    and "StartListenerAtPath w listen discoverPath receiver more' = (Inr s, w')"
  shows "server_listener s = \<lparr>network = ''tcp'', laddr = listen ! 0\<rparr>
       \<and> listeners w' = listeners w @ [server_listener s]
       \<and> files w' discoverPath =
           Some (RegularFile (''tcp://'' @ (if length listen > 1 then listen ! 1 else listen ! 0)))"
proof -
  from assms(2) have run: "startAtPath w listen discoverPath receiver more' = (Inr s, w')"
    by (simp add: StartListenerAtPath_def)
  from startAtPath_Inr [OF run] obtain srv ifs addr l w3 where
    b: "bind_listener (wired w (receiver # more')) listen discoverPath = (Inr (addr, l), w3)"
    and s: "s = \<lparr>server_Addr = addr, server_Timeout = 10, server_listener = l,
            server_listen = listen, server_discoverPath = discoverPath\<rparr>"
    and w': "w' = w3\<lparr>rpc := srv @ [HandshakeService ifs], stop_chan_closed := False,
              tasks := tasks w3 @ [AcceptLoop l listen discoverPath]\<rparr>"
    by blast
  from b assms(1) have "l = \<lparr>network = ''tcp'', laddr = listen ! 0\<rparr>
      \<and> listeners w3 = listeners w @ [l]
      \<and> files w3 discoverPath = Some (RegularFile (marker listen))"
    by (auto simp: bind_listener_remote wired_fields split: if_splits option.splits write_failure.splits)
  with s w' show ?thesis by (simp add: marker_def)
qed

theorem remote_mode_marker_witness:
  "files (snd (StartListenerAtPath world0 [''0.0.0.0:24864'', ''10.0.0.5:24864'']
                 ''/run/plugins/instance'' objA [objB])) ''/run/plugins/instance''
     = Some (RegularFile ''tcp://10.0.0.5:24864'')
   \<and> files (snd (StartListenerAtPath world0 [''0.0.0.0:24864'']
                 ''/run/plugins/instance'' objA [objB])) ''/run/plugins/instance''
     = Some (RegularFile ''tcp://0.0.0.0:24864'')"
proof -
  have 1: "StartListenerAtPath world0 [''0.0.0.0:24864'', ''10.0.0.5:24864'']
             ''/run/plugins/instance'' objA [objB]
     = (Inr \<lparr>server_Addr = ''0.0.0.0:24864'', server_Timeout = 10,
             server_listener = \<lparr>network = ''tcp'', laddr = ''0.0.0.0:24864''\<rparr>,
             server_listen = [''0.0.0.0:24864'', ''10.0.0.5:24864''],
             server_discoverPath = ''/run/plugins/instance''\<rparr>,
        snd (StartListenerAtPath world0 [''0.0.0.0:24864'', ''10.0.0.5:24864'']
               ''/run/plugins/instance'' objA [objB]))"
    by (simp add: start_eval)
  have 2: "StartListenerAtPath world0 [''0.0.0.0:24864'']
             ''/run/plugins/instance'' objA [objB]
     = (Inr \<lparr>server_Addr = ''0.0.0.0:24864'', server_Timeout = 10,
             server_listener = \<lparr>network = ''tcp'', laddr = ''0.0.0.0:24864''\<rparr>,
             server_listen = [''0.0.0.0:24864''],
             server_discoverPath = ''/run/plugins/instance''\<rparr>,
        snd (StartListenerAtPath world0 [''0.0.0.0:24864'']
               ''/run/plugins/instance'' objA [objB]))"
    by (simp add: start_eval)
  have ne: "[''0.0.0.0:24864'', ''10.0.0.5:24864''] \<noteq> []" "[''0.0.0.0:24864''] \<noteq> []"
    by simp_all
  from remote_mode_marker_content [OF ne(1) 1] remote_mode_marker_content [OF ne(2) 2]
  show ?thesis by simp
qed

section \<open>The server at run time leaves the handshake map alone\<close>

lemma rpc_step: "rpc (step s w a) = rpc w"
proof (cases a)
  case (Receive c r)
  then show ?thesis by (cases r) (simp_all add: forward_def)
next
  case StopCalled
  then show ?thesis by (simp add: Stop_def graceful_Stop_def Listener_Close_def)
next
  case Drained
  then show ?thesis by (simp add: graceful_drained_def)
next
  case ServeReturned
  then show ?thesis by (simp add: serve_returned_def os_Remove_def Let_def)
qed

lemma rpc_run: "rpc (foldl (step s) w acts) = rpc w"
  by (induction acts arbitrary: w) (simp_all add: rpc_step)

text \<open>
  C3, as the code has it: when the method names of the backing objects are pairwise
  disjoint and none of them is a method name of the handshake service, every
  registration succeeds; the key set of the handshake map is the set of the objects'
  \<open>ImplementedInterface()\<close> values, every key is mapped to the \<open>Types()\<close> of an object that
  implements it (of each object, when the interfaces are distinct); and once the server
  has started, the handshake query returns this map after every sequence of events.
\<close>

theorem registration_succeeds_and_handshake_map:
  assumes "pairwise_disjoint (map Methods (receiver # more'))"
    and "\<forall>t\<in>set (receiver # more'). set (Methods t) \<inter> set handshake_methods = {}"
  shows "\<exists>server ifs.
      register_targets [] Map.empty (receiver # more') = Inr (server, ifs)
    \<and> RegisterService server (HandshakeService ifs) = Inr (server @ [HandshakeService ifs])
    \<and> dom ifs = ImplementedInterface ` set (receiver # more')
    \<and> (\<forall>k\<in>dom ifs. \<exists>t\<in>set (receiver # more').
           ImplementedInterface t = k \<and> ifs k = Some (Types t))
    \<and> (distinct (map ImplementedInterface (receiver # more'))
         \<longrightarrow> (\<forall>t\<in>set (receiver # more'). ifs (ImplementedInterface t) = Some (Types t)))
    \<and> (\<forall>w listen discoverPath e.
           fst (startAtPath w listen discoverPath receiver more') = Inl e
             \<longrightarrow> \<not> is_RegistrationError e)
    \<and> (\<forall>w listen discoverPath s w' acts.
           startAtPath w listen discoverPath receiver more' = (Inr s, w')
             \<longrightarrow> Implements (rpc (foldl (step s) w' acts)) = Some ifs)"
proof -
  define ts where "ts = receiver # more'"
  define server where "server = map PluginService ts"
  define ifs where "ifs = fold put_interface ts Map.empty"
  have reg: "register_targets [] Map.empty ts = Inr (server, ifs)"
    using register_targets_ok [of ts "[]" Map.empty] assms(1)
    by (simp add: ts_def server_def ifs_def exposed_def)
  have a2: "\<forall>t\<in>set ts. set (Methods t) \<inter> set handshake_methods = {}"
    using assms(2) by (simp add: ts_def)
  have "set (service_methods (HandshakeService ifs)) \<inter> set (exposed server) = {}"
    using a2 by (auto simp: server_def exposed_plugins)
  then have hs: "RegisterService server (HandshakeService ifs) = Inr (server @ [HandshakeService ifs])"
    by (rule RegisterService_ok)
  have dom: "dom ifs = ImplementedInterface ` set ts"
    by (simp add: ifs_def dom_fold_put)
  have val: "\<forall>k\<in>dom ifs. \<exists>t\<in>set ts. ImplementedInterface t = k \<and> ifs k = Some (Types t)"
  proof
    fix k assume "k \<in> dom ifs"
    with dom have "k \<in> ImplementedInterface ` set ts" by simp
    from fold_put_value [OF this, of Map.empty]
    show "\<exists>t\<in>set ts. ImplementedInterface t = k \<and> ifs k = Some (Types t)"
      by (simp add: ifs_def)
  qed
  have each: "distinct (map ImplementedInterface ts)
         \<longrightarrow> (\<forall>t\<in>set ts. ifs (ImplementedInterface t) = Some (Types t))"
  proof (intro impI ballI)
    fix t assume d: "distinct (map ImplementedInterface ts)" and t: "t \<in> set ts"
    from t obtain j where j: "j < length ts" "ts ! j = t" by (auto simp: in_set_conv_nth)
    have "\<forall>k. j < k \<and> k < length ts
            \<longrightarrow> ImplementedInterface (ts ! k) \<noteq> ImplementedInterface (ts ! j)"
    proof (intro allI impI)
      fix k assume k: "j < k \<and> k < length ts"
      have kl: "k < length (map ImplementedInterface ts)"
        and jl: "j < length (map ImplementedInterface ts)"
        using k j(1) by simp_all
      from nth_eq_iff_index_eq [OF d kl jl] k
      have "map ImplementedInterface ts ! k \<noteq> map ImplementedInterface ts ! j" by simp
      moreover have "map ImplementedInterface ts ! k = ImplementedInterface (ts ! k)"
        using k by (intro nth_map) simp
      moreover have "map ImplementedInterface ts ! j = ImplementedInterface (ts ! j)"
        using j(1) by (intro nth_map)
      ultimately show "ImplementedInterface (ts ! k) \<noteq> ImplementedInterface (ts ! j)"
        by simp
    qed
    from fold_put_last [OF j(1) this, of Map.empty] j(2)
    show "ifs (ImplementedInterface t) = Some (Types t)" by (simp add: ifs_def)
  qed
  have noreg: "\<forall>w listen discoverPath e.
           fst (startAtPath w listen discoverPath receiver more') = Inl e
             \<longrightarrow> \<not> is_RegistrationError e"
  proof (intro allI impI)
    fix w listen discoverPath e
    assume "fst (startAtPath w listen discoverPath receiver more') = Inl e"
    then have run: "startAtPath w listen discoverPath receiver more'
        = (Inl e, snd (startAtPath w listen discoverPath receiver more'))"
      by (simp add: prod_eq_iff)
    show "\<not> is_RegistrationError e"
    proof
      assume "is_RegistrationError e"
      with startAtPath_Inl [OF run]
      have "register_targets [] Map.empty ts = Inl e
          \<or> (\<exists>srv ifs. register_targets [] Map.empty ts = Inr (srv, ifs)
                \<and> RegisterService srv (HandshakeService ifs) = Inl e)"
        by (auto simp: ts_def)
      with reg hs show False by auto
    qed
  qed
  have stable: "\<forall>w listen discoverPath s w' acts.
           startAtPath w listen discoverPath receiver more' = (Inr s, w')
             \<longrightarrow> Implements (rpc (foldl (step s) w' acts)) = Some ifs"
  proof (intro allI impI)
    fix w listen discoverPath s w' acts
    assume run: "startAtPath w listen discoverPath receiver more' = (Inr s, w')"
    from startAtPath_Inr [OF run] reg
    have "rpc w' = server @ [HandshakeService ifs]" by (auto simp: ts_def)
    then show "Implements (rpc (foldl (step s) w' acts)) = Some ifs"
      by (simp add: rpc_run server_def Implements_registered)
  qed
  from reg hs dom val each noreg stable show ?thesis
    unfolding ts_def by blast
qed

theorem registration_and_handshake_witness:
  "\<exists>ifs. Implements (rpc (foldl (step \<lparr>server_Addr = ''unix:///tmp/test.sock'', server_Timeout = 10,
             server_listener = \<lparr>network = ''unix'', laddr = ''/tmp/test.sock''\<rparr>,
             server_listen = [], server_discoverPath = ''/tmp/test.sock''\<rparr>)
          (snd (startAtPath world0 [] ''/tmp/test.sock'' objA [objB]))
          [Receive 0 Closed, StopCalled, Drained, ServeReturned])) = Some ifs
     \<and> dom ifs = {\<lparr>Name = ''X'', Version = ''1.0''\<rparr>, \<lparr>Name = ''Y'', Version = ''1.0''\<rparr>}
     \<and> ifs \<lparr>Name = ''X'', Version = ''1.0''\<rparr> = Some [''a'', ''b'']
     \<and> ifs \<lparr>Name = ''Y'', Version = ''1.0''\<rparr> = Some [''c'']"
proof -
  have h1: "pairwise_disjoint (map Methods (objA # [objB]))"
    by (simp add: objA_def objB_def)
  have h2: "\<forall>t\<in>set (objA # [objB]). set (Methods t) \<inter> set handshake_methods = {}"
    by (simp add: objA_def objB_def handshake_methods_def)
  have d: "distinct (map ImplementedInterface (objA # [objB]))"
    by (simp add: objA_def objB_def)
  have run: "startAtPath world0 [] ''/tmp/test.sock'' objA [objB]
     = (Inr \<lparr>server_Addr = ''unix:///tmp/test.sock'', server_Timeout = 10,
             server_listener = \<lparr>network = ''unix'', laddr = ''/tmp/test.sock''\<rparr>,
             server_listen = [], server_discoverPath = ''/tmp/test.sock''\<rparr>,
        snd (startAtPath world0 [] ''/tmp/test.sock'' objA [objB]))"
    by (simp add: run_local)
  from registration_succeeds_and_handshake_map [OF h1 h2] obtain server ifs where
    dom: "dom ifs = ImplementedInterface ` set (objA # [objB])"
    and each: "distinct (map ImplementedInterface (objA # [objB]))
         \<longrightarrow> (\<forall>t\<in>set (objA # [objB]). ifs (ImplementedInterface t) = Some (Types t))"
    and stable: "\<forall>w listen discoverPath s w' acts.
           startAtPath w listen discoverPath objA [objB] = (Inr s, w')
             \<longrightarrow> Implements (rpc (foldl (step s) w' acts)) = Some ifs"
    by blast
  from each d have "ifs (ImplementedInterface objA) = Some (Types objA)"
    and "ifs (ImplementedInterface objB) = Some (Types objB)" by simp_all
  then have v: "ifs \<lparr>Name = ''X'', Version = ''1.0''\<rparr> = Some [''a'', ''b'']"
    "ifs \<lparr>Name = ''Y'', Version = ''1.0''\<rparr> = Some [''c'']"
    by (simp_all add: objA_def objB_def)
  from dom have k: "dom ifs = {\<lparr>Name = ''X'', Version = ''1.0''\<rparr>, \<lparr>Name = ''Y'', Version = ''1.0''\<rparr>}"
    by (simp add: objA_def objB_def)
  from stable run have "Implements (rpc (foldl (step \<lparr>server_Addr = ''unix:///tmp/test.sock'',
             server_Timeout = 10,
             server_listener = \<lparr>network = ''unix'', laddr = ''/tmp/test.sock''\<rparr>,
             server_listen = [], server_discoverPath = ''/tmp/test.sock''\<rparr>)
          (snd (startAtPath world0 [] ''/tmp/test.sock'' objA [objB]))
          [Receive 0 Closed, StopCalled, Drained, ServeReturned])) = Some ifs"
    by blast
  with k v show ?thesis by blast
qed

text \<open>
  C9: when two backing objects return the same InterfaceSpec, the handshake map of the
  started server has, under that key, the \<open>Types()\<close> of the one that comes last in
  registration order (the receiver first, then the additional objects in their order);
  what an earlier object stored under the key is overwritten.
\<close>

theorem later_object_overwrites_types:
  assumes "startAtPath w listen discoverPath receiver more' = (Inr s, w')"
    and "i < j" and "j < length (receiver # more')"
    and "ImplementedInterface ((receiver # more') ! i) = ImplementedInterface ((receiver # more') ! j)"
    and "\<forall>k. j < k \<and> k < length (receiver # more')
           \<longrightarrow> ImplementedInterface ((receiver # more') ! k)
                 \<noteq> ImplementedInterface ((receiver # more') ! j)"
  shows "\<exists>ifs. Implements (rpc w') = Some ifs
       \<and> ifs (ImplementedInterface ((receiver # more') ! i)) = Some (Types ((receiver # more') ! j))"
proof -
  from startAtPath_Inr [OF assms(1)] obtain srv ifs where
    reg: "register_targets [] Map.empty (receiver # more') = Inr (srv, ifs)"
    and rpc: "rpc w' = srv @ [HandshakeService ifs]"
    by auto
  from register_targets_Inr [OF reg]
  have srv: "srv = map PluginService (receiver # more')"
    and ifs: "ifs = fold put_interface (receiver # more') Map.empty" by simp_all
  have "Implements (rpc w') = Some ifs"
    unfolding rpc srv by (rule Implements_registered)
  moreover from fold_put_last [OF assms(3) assms(5), of Map.empty]
  have "ifs (ImplementedInterface ((receiver # more') ! i)) = Some (Types ((receiver # more') ! j))"
    unfolding ifs assms(4) .
  ultimately show ?thesis by blast
qed

theorem later_object_overwrites_witness:
  "\<exists>ifs. Implements (rpc (snd (startAtPath world0 [] ''/tmp/test.sock'' objA [objB, objA2])))
            = Some ifs
       \<and> ifs \<lparr>Name = ''X'', Version = ''1.0''\<rparr> = Some [''z'']"
proof -
  have run: "startAtPath world0 [] ''/tmp/test.sock'' objA [objB, objA2]
     = (Inr \<lparr>server_Addr = ''unix:///tmp/test.sock'', server_Timeout = 10,
             server_listener = \<lparr>network = ''unix'', laddr = ''/tmp/test.sock''\<rparr>,
             server_listen = [], server_discoverPath = ''/tmp/test.sock''\<rparr>,
        snd (startAtPath world0 [] ''/tmp/test.sock'' objA [objB, objA2]))"
    by (simp add: start_eval)
  have ij: "(0::nat) < 2" and j: "2 < length (objA # [objB, objA2])" by simp_all
  have same: "ImplementedInterface ((objA # [objB, objA2]) ! 0)
            = ImplementedInterface ((objA # [objB, objA2]) ! 2)"
    by (simp add: objA_def objA2_def)
  have last: "\<forall>k. 2 < k \<and> k < length (objA # [objB, objA2])
           \<longrightarrow> ImplementedInterface ((objA # [objB, objA2]) ! k)
                 \<noteq> ImplementedInterface ((objA # [objB, objA2]) ! 2)"
  proof (intro allI impI)
    fix k :: nat
    assume "2 < k \<and> k < length (objA # [objB, objA2])"
    then have "2 < k \<and> k < 3" by simp
    then have False by arith
    then show "ImplementedInterface ((objA # [objB, objA2]) ! k)
                 \<noteq> ImplementedInterface ((objA # [objB, objA2]) ! 2)" ..
  qed
  from later_object_overwrites_types [OF run ij j same last]
  show ?thesis by (simp add: objA_def objA2_def)
qed

section \<open>One channel, one call and one goroutine for every publisher\<close>

lemma forward_Closed:
  "forward v c Closed = v\<lparr>tasks := removeAll (Forwarder c) (tasks v)\<rparr>"
  by (simp add: forward_def)

lemma forward_Got:
  "Forwarder c \<in> set (tasks v) \<Longrightarrow>
   forward v c (Got ev) = v\<lparr>events := Publish (events v) (Path_String (Topic ev)) ev 1\<rparr>"
  by (simp add: forward_def)

lemma started_fields:
  assumes "startAtPath w listen discoverPath receiver more' = (r, w')"
    and "\<forall>e. r = Inl e \<longrightarrow> \<not> is_RegistrationError e"
  shows "publish_on_calls w' = publish_on_calls (wired w (receiver # more'))
       \<and> chan_count w' = chan_count (wired w (receiver # more'))
       \<and> tasks w' = tasks (wired w (receiver # more'))
                      @ (case r of Inl e \<Rightarrow> [] | Inr s \<Rightarrow> [accept_task s])"
proof (cases r)
  case (Inl e)
  with assms(2) have nr: "\<not> is_RegistrationError e" by simp
  from assms(1) Inl have run: "startAtPath w listen discoverPath receiver more' = (Inl e, w')"
    by simp
  from startAtPath_Inl [OF run] nr
  consider (info) "w' = wired w (receiver # more')"
    | (bind) "bind_listener (wired w (receiver # more')) listen discoverPath = (Inl e, w')"
    by blast
  then show ?thesis
  proof cases
    case info
    with Inl show ?thesis by simp
  next
    case bind
    from bind_listener_frame [OF bind] Inl show ?thesis by simp
  qed
next
  case (Inr s)
  with assms(1) have run: "startAtPath w listen discoverPath receiver more' = (Inr s, w')"
    by simp
  from startAtPath_Inr [OF run] obtain srv ifs addr l w3 where
    b: "bind_listener (wired w (receiver # more')) listen discoverPath = (Inr (addr, l), w3)"
    and s: "s = \<lparr>server_Addr = addr, server_Timeout = 10, server_listener = l,
            server_listen = listen, server_discoverPath = discoverPath\<rparr>"
    and w': "w' = w3\<lparr>rpc := srv @ [HandshakeService ifs], stop_chan_closed := False,
              tasks := tasks w3 @ [AcceptLoop l listen discoverPath]\<rparr>"
    by blast
  from bind_listener_frame [OF b] s w' Inr show ?thesis by (simp add: accept_task_def)
qed

text \<open>
  C8: when startup gets past registration, the backing objects that are publishers, and
  only they, each get one new channel of their own (\<open>PublishOn\<close> is called once for each,
  in order, with channels that are new and pairwise different) and one forwarding
  goroutine on that channel. When a channel is closed, the goroutine of that channel is
  the only one that ends: every other goroutine keeps running, the broker is as it was,
  and an event received on another channel is still published.
\<close>

theorem one_channel_and_forwarder_per_publisher:
  assumes "startAtPath w listen discoverPath receiver more' = (r, w')"
    and "\<forall>e. r = Inl e \<longrightarrow> \<not> is_RegistrationError e"
  shows "(let targets = receiver # more';
              pubs = filter (\<lambda>j. is_Publisher (targets ! j)) [0..<length targets];
              chans = [chan_count w..<chan_count w + length pubs]
          in publish_on_calls w' = publish_on_calls w @ zip pubs chans
           \<and> chan_count w' = chan_count w + length pubs
           \<and> tasks w' = tasks w @ map Forwarder chans
                           @ (case r of Inl e \<Rightarrow> [] | Inr s \<Rightarrow> [accept_task s]))
       \<and> (\<forall>c. tasks (forward w' c Closed) = removeAll (Forwarder c) (tasks w')
              \<and> events (forward w' c Closed) = events w')
       \<and> (\<forall>c c' ev. c' \<noteq> c \<and> Forwarder c' \<in> set (tasks w')
              \<longrightarrow> Forwarder c' \<in> set (tasks (forward w' c Closed))
                \<and> events (forward (forward w' c Closed) c' (Got ev))
                    = Publish (events w') (Path_String (Topic ev)) ev 1)"
proof (intro conjI)
  from started_fields [OF assms]
  show "let targets = receiver # more';
            pubs = filter (\<lambda>j. is_Publisher (targets ! j)) [0..<length targets];
            chans = [chan_count w..<chan_count w + length pubs]
        in publish_on_calls w' = publish_on_calls w @ zip pubs chans
         \<and> chan_count w' = chan_count w + length pubs
         \<and> tasks w' = tasks w @ map Forwarder chans
                         @ (case r of Inl e \<Rightarrow> [] | Inr s \<Rightarrow> [accept_task s])"
    unfolding Let_def length_positions_0 by (simp add: wired_fields)
  show "\<forall>c. tasks (forward w' c Closed) = removeAll (Forwarder c) (tasks w')
              \<and> events (forward w' c Closed) = events w'"
    by (simp add: forward_Closed)
  show "\<forall>c c' ev. c' \<noteq> c \<and> Forwarder c' \<in> set (tasks w')
              \<longrightarrow> Forwarder c' \<in> set (tasks (forward w' c Closed))
                \<and> events (forward (forward w' c Closed) c' (Got ev))
                    = Publish (events w') (Path_String (Topic ev)) ev 1"
    by (simp add: forward_Closed forward_Got)
qed

theorem one_channel_per_publisher_witness:
  "publish_on_calls (snd (startAtPath world0 [] ''/tmp/test.sock'' objA [objB, objC]))
     = [(1, 0), (2, 1)]
   \<and> tasks (forward (snd (startAtPath world0 [] ''/tmp/test.sock'' objA [objB, objC])) 0 Closed)
     = [Forwarder 1,
        AcceptLoop \<lparr>network = ''unix'', laddr = ''/tmp/test.sock''\<rparr> [] ''/tmp/test.sock'']"
proof -
  define s0 where "s0 = \<lparr>server_Addr = ''unix:///tmp/test.sock'', server_Timeout = 10,
             server_listener = \<lparr>network = ''unix'', laddr = ''/tmp/test.sock''\<rparr>,
             server_listen = [], server_discoverPath = ''/tmp/test.sock''\<rparr>"
  define w1 where "w1 = snd (startAtPath world0 [] ''/tmp/test.sock'' objA [objB, objC])"
  have run: "startAtPath world0 [] ''/tmp/test.sock'' objA [objB, objC] = (Inr s0, w1)"
    by (simp add: start_eval objC_def s0_def w1_def)
  have h: "\<forall>e. (Inr s0 :: error + stoppableServer) = Inl e \<longrightarrow> \<not> is_RegistrationError e"
    by simp
  note main = one_channel_and_forwarder_per_publisher [OF run h]
  have pubs: "filter (\<lambda>j. is_Publisher ((objA # [objB, objC]) ! j))
                [0..<length (objA # [objB, objC])] = [1, 2]"
    by (simp add: objA_def objB_def objC_def upt_rec)
  from main have "publish_on_calls w1 = publish_on_calls world0 @
        zip (filter (\<lambda>j. is_Publisher ((objA # [objB, objC]) ! j))
                [0..<length (objA # [objB, objC])])
            [chan_count world0..<chan_count world0 +
               length (filter (\<lambda>j. is_Publisher ((objA # [objB, objC]) ! j))
                [0..<length (objA # [objB, objC])])]"
    and "tasks w1 = tasks world0 @ map Forwarder
            [chan_count world0..<chan_count world0 +
               length (filter (\<lambda>j. is_Publisher ((objA # [objB, objC]) ! j))
                [0..<length (objA # [objB, objC])])] @ [accept_task s0]"
    by (simp_all only: Let_def sum.case)
  then have calls: "publish_on_calls w1 = [(1, 0), (2, 1)]"
    and tasks: "tasks w1 = [Forwarder 0, Forwarder 1, accept_task s0]"
    unfolding pubs by (simp_all add: world0_def upt_rec)
  from main have "tasks (forward w1 0 Closed) = removeAll (Forwarder 0) (tasks w1)"
    by blast
  with tasks have "tasks (forward w1 0 Closed) = [Forwarder 1, accept_task s0]"
    by (simp add: accept_task_def)
  with calls show ?thesis by (simp add: w1_def accept_task_def s0_def)
qed

section \<open>The discovery marker and the listener\<close>













end
